theory Spec2Isabelle
  imports Main
begin

section \<open>Constants (constants.go) and the error taxonomy (errors.go)\<close>

definition LayoutsDir :: string where
  "LayoutsDir = ''layouts''"

definition PartialsDir :: string where
  "PartialsDir = ''partials''"

definition ViewsDir :: string where
  "ViewsDir = ''views''"

definition SystemDir :: string where
  "SystemDir = ''system''"

definition DefaultBaseLayout :: string where
  "DefaultBaseLayout = ''base''"

text \<open>
  Go error values. \<open>GtmlError\<close> is the package's own \<^verbatim>\<open>gtmlError\<close> string type,
  \<open>LibError\<close> an error of the standard library carrying its message, and
  \<open>Wrapf pre e post\<close> the value of \<^verbatim>\<open>fmt.Errorf\<close> with one \<^verbatim>\<open>%w\<close> verb: the text
  before the verb, the wrapped error, the text after it.
\<close>

datatype gerror =
    GtmlError string
  | LibError string
  | Wrapf string gerror string

fun Error :: "gerror \<Rightarrow> string" where
  "Error (GtmlError s) = s"
| "Error (LibError s) = s"
| "Error (Wrapf pre e post) = pre @ Error e @ post"

text \<open>\<^verbatim>\<open>errors.Is\<close>: the target is the error itself or an error it wraps.\<close>

fun Is :: "gerror \<Rightarrow> gerror \<Rightarrow> bool" where
  "Is (Wrapf pre e post) t = (Wrapf pre e post = t \<or> Is e t)"
| "Is e t = (e = t)"

definition ErrTempNotFound :: gerror where
  "ErrTempNotFound = GtmlError ''template not found''"

definition ErrTempParse :: gerror where
  "ErrTempParse = GtmlError ''template parse error''"

definition ErrTempRender :: gerror where
  "ErrTempRender = GtmlError ''template render error''"

section \<open>Strings and paths (strings, path/filepath)\<close>

definition HasSuffix :: "string \<Rightarrow> string \<Rightarrow> bool" where
  "HasSuffix s suf = (length suf \<le> length s \<and> drop (length s - length suf) s = suf)"

definition HasPrefix :: "string \<Rightarrow> string \<Rightarrow> bool" where
  "HasPrefix s pre = (take (length pre) s = pre)"

definition TrimSuffix :: "string \<Rightarrow> string \<Rightarrow> string" where
  "TrimSuffix s suf = (if HasSuffix s suf then take (length s - length suf) s else s)"

text \<open>
  Paths are slash-separated, as \<^verbatim>\<open>io/fs\<close> has them and as \<^verbatim>\<open>path/filepath\<close> has
  them on Unix. \<^verbatim>\<open>filepath.Ext\<close> scans the path from its end up to the last separator
  and returns the text from the last dot of the last element on, or the empty string.
\<close>

definition Ext :: "string \<Rightarrow> string" where
  "Ext path =
     (let r = takeWhile (\<lambda>c. c \<noteq> CHR ''/'') (rev path)
      in if CHR ''.'' \<in> set r then CHR ''.'' # rev (takeWhile (\<lambda>c. c \<noteq> CHR ''.'') r)
         else [])"

text \<open>
  \<^verbatim>\<open>filepath.Rel("", targ)\<close>, for a path that is already clean (the paths
  \<^verbatim>\<open>fs.WalkDir\<close> builds with \<^verbatim>\<open>path.Join\<close> are): a rooted target cannot be made
  relative to the empty base, every other target is returned as it is.
\<close>

definition Rel_empty :: "string \<Rightarrow> gerror + string" where
  "Rel_empty targ =
     (if targ \<noteq> [] \<and> hd targ = CHR ''/''
      then Inl (LibError (''Rel: can't make '' @ targ @ '' relative to ''))
      else Inr targ)"

text \<open>\<^verbatim>\<open>path.Base\<close> of a clean, non-empty path: its last element.\<close>

definition Base :: "string \<Rightarrow> string" where
  "Base path = rev (takeWhile (\<lambda>c. c \<noteq> CHR ''/'') (rev path))"

text \<open>The elements of a slash-separated path.\<close>

fun split_path :: "string \<Rightarrow> string list" where
  "split_path [] = [[]]"
| "split_path (c # cs) =
     (if c = CHR ''/'' then [] # split_path cs
      else (case split_path cs of [] \<Rightarrow> [[c]] | e # es \<Rightarrow> (c # e) # es))"

section \<open>File trees (io/fs)\<close>

text \<open>
  A source is an \<^verbatim>\<open>fs.FS\<close>: a read-only tree. A directory lists its entries in the
  order \<^verbatim>\<open>ReadDir\<close> returns them; \<open>Unreadable msg\<close> is a directory whose
  \<^verbatim>\<open>ReadDir\<close> fails with \<open>msg\<close>.
\<close>

datatype fsnode =
    File string
  | Dir "(string \<times> fsnode) list"
  | Unreadable string

fun lookup :: "fsnode \<Rightarrow> string list \<Rightarrow> fsnode option" where
  "lookup n [] = Some n"
| "lookup (Dir es) (e # rest) =
     (case map_of es e of None \<Rightarrow> None | Some n \<Rightarrow> lookup n rest)"
| "lookup n (e # rest) = None"

text \<open>\<^verbatim>\<open>fsys.Open(name)\<close> (and \<^verbatim>\<open>fs.Stat\<close>) succeed when the name exists in the tree.\<close>

definition Open :: "fsnode \<Rightarrow> string \<Rightarrow> fsnode option" where
  "Open fsys name = lookup fsys (split_path name)"

definition ReadFile :: "fsnode \<Rightarrow> string \<Rightarrow> gerror + string" where
  "ReadFile fsys name =
     (case Open fsys name of
        None \<Rightarrow> Inl (LibError (''open '' @ name @ '': file does not exist''))
      | Some (File s) \<Rightarrow> Inr s
      | Some _ \<Rightarrow> Inl (LibError (''read '' @ name @ '': is a directory'')))"

definition ReadDir :: "fsnode \<Rightarrow> string \<Rightarrow> gerror + (string \<times> fsnode) list" where
  "ReadDir fsys name =
     (case Open fsys name of
        None \<Rightarrow> Inl (LibError (''open '' @ name @ '': file does not exist''))
      | Some (File s) \<Rightarrow> Inl (LibError (''readdir '' @ name @ '': not implemented''))
      | Some (Dir es) \<Rightarrow> Inr es
      | Some (Unreadable msg) \<Rightarrow> Inl (LibError msg))"

text \<open>
  \<^verbatim>\<open>fs.WalkDir\<close> calls its function on the root and then, in \<^verbatim>\<open>ReadDir\<close> order, on
  everything below it; a directory that cannot be read gets a second call that carries
  the error. An event is one such call: the path, whether the entry is a directory, and
  the error passed. Neither callback of the program ever returns \<^verbatim>\<open>fs.SkipDir\<close> or
  \<^verbatim>\<open>fs.SkipAll\<close>, so the walk is the list of its events, cut at the first call that
  returns an error (\<open>run_walk\<close>).
\<close>

type_synonym event = "string \<times> bool \<times> gerror option"

fun walkDir :: "string \<Rightarrow> fsnode \<Rightarrow> event list"
  and walkEntries :: "string \<Rightarrow> (string \<times> fsnode) list \<Rightarrow> event list" where
  "walkDir name (File s) = [(name, False, None)]"
| "walkDir name (Dir es) = (name, True, None) # walkEntries name es"
| "walkDir name (Unreadable msg) = [(name, True, None), (name, True, Some (LibError msg))]"
| "walkEntries name [] = []"
| "walkEntries name (e # es) =
     walkDir (name @ ''/'' @ fst e) (snd e) @ walkEntries name es"

fun run_walk :: "(event \<Rightarrow> 's \<Rightarrow> 's \<times> gerror option) \<Rightarrow> event list \<Rightarrow> 's \<Rightarrow> 's \<times> gerror option" where
  "run_walk fn [] st = (st, None)"
| "run_walk fn (ev # evs) st =
     (case fn ev st of
        (st', Some e) \<Rightarrow> (st', Some e)
      | (st', None) \<Rightarrow> run_walk fn evs st')"

section \<open>The template engine (html/template)\<close>

text \<open>
  The engine is an external capability. A template object is a set of named parse trees
  that share a function map; \<open>tname\<close> is the name it was created with, which has no
  tree until a file of that name is parsed. What the standard library computes from
  texts is a parameter of the model, the record \<open>engine\<close>:
  \<^item> \<open>Parse\<close> turns a text into the tree of the text's top level and the trees of its
    \<^verbatim>\<open>{{define}}\<close> blocks, or fails with a message;
  \<^item> \<open>IsEmptyTree\<close> tells a tree without content;
  \<^item> \<open>Exec\<close> runs a tree against a data value and gives the bytes written before it
    stopped and the message of the error, if any;
  \<^item> \<open>GlobPattern\<close> is \<^verbatim>\<open>fs.Glob\<close> on the patterns that \<open>Glob\<close> below does not
    spell out: the paths the pattern matches in a tree, or the error of a malformed
    pattern;
  \<^item> \<open>Quote\<close> and \<open>QuoteSharp\<close> are the verbs \<^verbatim>\<open>%q\<close> and \<^verbatim>\<open>%#q\<close> of \<^verbatim>\<open>fmt\<close> on a
    string.
\<close>

record ('b, 'f) template =
  tname :: string
  funcs :: "string \<rightharpoonup> 'f"
  defs :: "string \<rightharpoonup> 'b"

record ('b, 'f, 'd) engine =
  Parse :: "(string \<rightharpoonup> 'f) \<Rightarrow> string \<Rightarrow> string + 'b \<times> (string \<times> 'b) list"
  IsEmptyTree :: "'b \<Rightarrow> bool"
  Exec :: "('b, 'f) template \<Rightarrow> 'b \<Rightarrow> 'd \<Rightarrow> string \<times> string option"
  GlobPattern :: "fsnode \<Rightarrow> string \<Rightarrow> gerror + string list"
  Quote :: "string \<Rightarrow> string"
  QuoteSharp :: "string \<Rightarrow> string"

text \<open>
  \<^verbatim>\<open>fs.Glob\<close>. A pattern with none of the metacharacters \<^verbatim>\<open>* ? [\<close> and backslash
  matches the path itself when the path exists, and nothing otherwise. A pattern
  \<^verbatim>\<open>dir/*suffix\<close> in which neither the directory nor the suffix holds a metacharacter
  matches the entries of the directory (files or directories), in the order of
  \<^verbatim>\<open>ReadDir\<close>, whose names end with the suffix; an error of \<^verbatim>\<open>ReadDir\<close> is ignored.
  Every other pattern is matched against the tree by \<open>GlobPattern\<close>. The program calls
  \<^verbatim>\<open>ParseFS\<close> with the pattern \<^verbatim>\<open>layouts/*<ext>\<close> and with the paths of the partials and
  the views it walks: a path is a pattern too, and one with a metacharacter in a name
  matches what the pattern matches, not the file of that name.
\<close>

definition hasMeta :: "string \<Rightarrow> bool" where
  "hasMeta path = (\<exists>c \<in> set path. c = CHR ''*'' \<or> c = CHR ''?'' \<or> c = CHR ''['' \<or> c = CHR 0x5C)"

text \<open>The directory of a pattern: the pattern up to its last separator.\<close>

definition star_dir :: "string \<Rightarrow> string" where
  "star_dir pattern = take (length pattern - length (Base pattern) - 1) pattern"

definition star_pattern :: "string \<Rightarrow> bool" where
  "star_pattern pattern =
     (length (Base pattern) + 1 < length pattern
      \<and> Base pattern \<noteq> [] \<and> hd (Base pattern) = CHR ''*''
      \<and> \<not> hasMeta (star_dir pattern) \<and> \<not> hasMeta (tl (Base pattern)))"

definition Glob_star :: "fsnode \<Rightarrow> string \<Rightarrow> string \<Rightarrow> string list" where
  "Glob_star fsys dir suf =
     (case ReadDir fsys dir of
        Inl e \<Rightarrow> []
      | Inr es \<Rightarrow> map (\<lambda>e. dir @ ''/'' @ fst e) (filter (\<lambda>e. HasSuffix (fst e) suf) es))"

definition Glob :: "('b, 'f, 'd) engine \<Rightarrow> fsnode \<Rightarrow> string \<Rightarrow> gerror + string list" where
  "Glob E fsys pattern =
     (if \<not> hasMeta pattern
      then (case Open fsys pattern of None \<Rightarrow> Inr [] | Some n \<Rightarrow> Inr [pattern])
      else if star_pattern pattern
      then Inr (Glob_star fsys (star_dir pattern) (tl (Base pattern)))
      else GlobPattern E fsys pattern)"

text \<open>
  Template objects are mutable and shared by pointer: \<^verbatim>\<open>ParseFS\<close> changes its receiver
  in place, \<^verbatim>\<open>Clone\<close> allocates a copy. The store is the list of all objects allocated
  so far; a pointer is an index into it.
\<close>

type_synonym addr = nat

type_synonym ('b, 'f) heap = "('b, 'f) template list"

definition Template_New :: "string \<Rightarrow> ('b, 'f) heap \<Rightarrow> addr \<times> ('b, 'f) heap" where
  "Template_New name h = (length h, h @ [\<lparr>tname = name, funcs = Map.empty, defs = Map.empty\<rparr>])"

definition Template_Funcs :: "addr \<Rightarrow> (string \<rightharpoonup> 'f) \<Rightarrow> ('b, 'f) heap \<Rightarrow> ('b, 'f) heap" where
  "Template_Funcs a fm h = h[a := (h ! a)\<lparr>funcs := funcs (h ! a) ++ fm\<rparr>]"

text \<open>
  \<^verbatim>\<open>Clone\<close> fails only for a template that has been executed; the program clones the
  common set only, which it never executes, so \<^verbatim>\<open>template.Must\<close> never panics.
\<close>

definition Template_Clone :: "addr \<Rightarrow> ('b, 'f) heap \<Rightarrow> addr \<times> ('b, 'f) heap" where
  "Template_Clone a h = (length h, h @ [h ! a])"

text \<open>
  Adding a tree under a name replaces the tree of that name, except that an empty tree
  never replaces an existing one.
\<close>

definition associate :: "('b, 'f, 'd) engine \<Rightarrow> string \<times> 'b \<Rightarrow> ('b, 'f) template \<Rightarrow> ('b, 'f) template" where
  "associate E nb t =
     (if defs t (fst nb) \<noteq> None \<and> IsEmptyTree E (snd nb) then t
      else t\<lparr>defs := (defs t)(fst nb \<mapsto> snd nb)\<rparr>)"

text \<open>
  Parsing a text under a name adds the tree of the text's top level under that name and
  the tree of every block under the block's name.
\<close>

definition parse_text :: "('b, 'f, 'd) engine \<Rightarrow> string \<Rightarrow> string \<Rightarrow> ('b, 'f) template \<Rightarrow> gerror + ('b, 'f) template" where
  "parse_text E name s t =
     (case Parse E (funcs t) s of
        Inl msg \<Rightarrow> Inl (LibError msg)
      | Inr (root, blocks) \<Rightarrow> Inr (fold (associate E) ((name, root) # blocks) t))"

text \<open>
  \<^verbatim>\<open>parseFiles\<close>: each file is read and parsed into the receiver under the base name
  of its path; the first failure stops the loop.
\<close>

fun parseFiles :: "('b, 'f, 'd) engine \<Rightarrow> fsnode \<Rightarrow> addr \<Rightarrow> string list \<Rightarrow> ('b, 'f) heap \<Rightarrow> ('b, 'f) heap \<times> gerror option" where
  "parseFiles E fsys a [] h = (h, None)"
| "parseFiles E fsys a (file # files) h =
     (case ReadFile fsys file of
        Inl e \<Rightarrow> (h, Some e)
      | Inr s \<Rightarrow>
          (case parse_text E (Base file) s (h ! a) of
             Inl e \<Rightarrow> (h, Some e)
           | Inr t \<Rightarrow> parseFiles E fsys a files (h[a := t])))"

text \<open>
  \<^verbatim>\<open>ParseFS\<close> with one pattern: the pattern is globbed, a malformed pattern and a
  pattern that matches nothing are errors, and the files matched are parsed in order.
\<close>

definition ParseFS :: "('b, 'f, 'd) engine \<Rightarrow> fsnode \<Rightarrow> addr \<Rightarrow> string \<Rightarrow> ('b, 'f) heap \<Rightarrow> ('b, 'f) heap \<times> gerror option" where
  "ParseFS E fsys a pattern h =
     (case Glob E fsys pattern of
        Inl e \<Rightarrow> (h, Some e)
      | Inr matches \<Rightarrow>
          if matches = []
          then (h, Some (LibError (''template: pattern matches no files: '' @ QuoteSharp E pattern)))
          else parseFiles E fsys a matches h)"

text \<open>
  \<^verbatim>\<open>ExecuteTemplate\<close> looks the name up in the set: a name that is not in the set is
  undefined, the set's own name without a tree is incomplete, and a tree is executed.
\<close>

definition ExecuteTemplate :: "('b, 'f, 'd) engine \<Rightarrow> ('b, 'f) template \<Rightarrow> string \<Rightarrow> 'd \<Rightarrow> string \<times> gerror option" where
  "ExecuteTemplate E t name data =
     (case defs t name of
        None \<Rightarrow>
          ([], Some (LibError (''html/template: '' @ Quote E name @
             (if name = tname t then '' is an incomplete template'' else '' is undefined''))))
      | Some b \<Rightarrow> (case Exec E t b data of (out, err) \<Rightarrow> (out, map_option LibError err)))"

section \<open>The template manager (TemplateManager)\<close>

text \<open>
  The catalog \<open>templates\<close> maps a page name to a pointer to its template object. The
  logger is only used by a debugging helper that is never called and is left out.
\<close>

record 'f manager =
  baseLayout :: string
  systemLayout :: string
  extension :: string
  fileSystemMap :: "string \<rightharpoonup> fsnode"
  funcMap :: "string \<rightharpoonup> 'f"
  templates :: "string \<rightharpoonup> addr"

record 'f options =
  BaseLayout :: string
  SystemLayout :: string
  Extension :: string
  Sources :: "string \<rightharpoonup> fsnode"
  Funcs :: "string \<rightharpoonup> 'f"

text \<open>
  Modelled from the spec: \<^verbatim>\<open>MergeFuncMaps\<close> is not among the source files. The spec
  says that built-in helpers are merged with the caller's, and that the caller's take
  precedence on a name collision. The built-in helpers are a parameter.
\<close>

definition MergeFuncMaps :: "(string \<rightharpoonup> 'f) \<Rightarrow> (string \<rightharpoonup> 'f) \<Rightarrow> (string \<rightharpoonup> 'f)" where
  "MergeFuncMaps builtins fm = builtins ++ fm"

text \<open>Indexing a string panics when the index is out of range.\<close>

definition byte_at :: "string \<Rightarrow> nat \<Rightarrow> string + char" where
  "byte_at s i = (if i < length s then Inr (s ! i) else Inl ''runtime error: index out of range'')"

text \<open>\<open>NewTemplateManager\<close>; \<open>Inl\<close> is a panic.\<close>

definition NewTemplateManager :: "(string \<rightharpoonup> 'f) \<Rightarrow> 'f options \<Rightarrow> string + 'f manager" where
  "NewTemplateManager builtins opts =
     (let fm = MergeFuncMaps builtins (Funcs opts);
          ext = (if Extension opts = [] then ''.html'' else Extension opts)
      in case byte_at ext 0 of
           Inl p \<Rightarrow> Inl p
         | Inr c \<Rightarrow>
             (let ext' = (if c \<noteq> CHR ''.'' then ''.'' @ ext else ext);
                  base = (if BaseLayout opts = [] then DefaultBaseLayout else BaseLayout opts);
                  sys = (if SystemLayout opts = [] then base else SystemLayout opts)
              in Inr \<lparr>baseLayout = base, systemLayout = sys, extension = ext',
                      fileSystemMap = Sources opts, funcMap = fm, templates = Map.empty\<rparr>))"

text \<open>
  \<^verbatim>\<open>fs.WalkDir\<close>: when the root cannot be found the function is called once, with the
  error.
\<close>

definition WalkDir :: "fsnode \<Rightarrow> string \<Rightarrow> (event \<Rightarrow> 's \<Rightarrow> 's \<times> gerror option) \<Rightarrow> 's \<Rightarrow> 's \<times> gerror option" where
  "WalkDir fsys root fn st =
     (case Open fsys root of
        None \<Rightarrow> fn (root, False, Some (LibError (''open '' @ root @ '': file does not exist''))) st
      | Some n \<Rightarrow> run_walk fn (walkDir root n) st)"

text \<open>The callback \<open>processPartials\<close> of \<open>loadLayoutsAndPartials\<close>.\<close>

definition processPartials :: "('b, 'f, 'd) engine \<Rightarrow> 'f manager \<Rightarrow> fsnode \<Rightarrow> addr \<Rightarrow> event \<Rightarrow> ('b, 'f) heap \<Rightarrow> ('b, 'f) heap \<times> gerror option" where
  "processPartials E tm fsys commonTemplates ev h =
     (case ev of (path, isDir, err) \<Rightarrow>
        (case err of
           Some e \<Rightarrow> (h, Some e)
         | None \<Rightarrow>
             if \<not> isDir \<and> Ext path = extension tm
             then ParseFS E fsys commonTemplates path h
             else (h, None)))"

text \<open>
  The loop of \<open>loadLayoutsAndPartials\<close> over the sources. Go leaves the order in which
  \<^verbatim>\<open>range\<close> visits a map open; the order is the argument \<open>ks\<close>, the keys as visited.
\<close>

fun loadSources :: "('b, 'f, 'd) engine \<Rightarrow> 'f manager \<Rightarrow> addr \<Rightarrow> string list \<Rightarrow> ('b, 'f) heap \<Rightarrow> ('b, 'f) heap \<times> gerror option" where
  "loadSources E tm commonTemplates [] h = (h, None)"
| "loadSources E tm commonTemplates (k # ks) h =
     (case fileSystemMap tm k of
        None \<Rightarrow> loadSources E tm commonTemplates ks h
      | Some fsys \<Rightarrow>
          (case ParseFS E fsys commonTemplates (LayoutsDir @ ''/*'' @ extension tm) h of
             (h1, Some e) \<Rightarrow> (h1, Some e)
           | (h1, None) \<Rightarrow>
               (if Open fsys PartialsDir \<noteq> None
                then (case WalkDir fsys PartialsDir (processPartials E tm fsys commonTemplates) h1 of
                        (h2, Some e) \<Rightarrow> (h2, Some e)
                      | (h2, None) \<Rightarrow> loadSources E tm commonTemplates ks h2)
                else loadSources E tm commonTemplates ks h1)))"

definition loadLayoutsAndPartials :: "('b, 'f, 'd) engine \<Rightarrow> string list \<Rightarrow> 'f manager \<Rightarrow> ('b, 'f) heap \<Rightarrow> ('b, 'f) heap \<times> (gerror + addr)" where
  "loadLayoutsAndPartials E ks tm h =
     (case Template_New ''_common_'' h of (commonTemplates, h0) \<Rightarrow>
        (case loadSources E tm commonTemplates ks (Template_Funcs commonTemplates (funcMap tm) h0) of
           (h1, Some e) \<Rightarrow> (h1, Inl e)
         | (h1, None) \<Rightarrow> (h1, Inr commonTemplates)))"

text \<open>The page name \<open>Init\<close> derives from a source's key and a relative path.\<close>

definition pageName :: "string \<Rightarrow> string \<Rightarrow> string" where
  "pageName fsID relPath =
     (let name = TrimSuffix relPath (Ext relPath)
      in if fsID \<noteq> [] \<and> fsID \<noteq> ''-'' then fsID @ '':'' @ name else name)"

text \<open>
  The callback \<open>processDirectory\<close> of \<open>Init\<close>. It closes over the manager, whose
  catalog it updates, so the state it threads is the manager and the store.
\<close>

definition processDirectory :: "('b, 'f, 'd) engine \<Rightarrow> string \<Rightarrow> fsnode \<Rightarrow> addr \<Rightarrow> event \<Rightarrow> 'f manager \<times> ('b, 'f) heap \<Rightarrow> ('f manager \<times> ('b, 'f) heap) \<times> gerror option" where
  "processDirectory E fsID fsys layoutsAndPartials ev st =
     (case ev of (path, isDir, err) \<Rightarrow>
      (case st of (tm, h) \<Rightarrow>
        (case err of
           Some e \<Rightarrow> ((tm, h), Some e)
         | None \<Rightarrow>
             if \<not> isDir \<and> Ext path = extension tm
             then (case Rel_empty path of
                     Inl e \<Rightarrow> ((tm, h), Some e)
                   | Inr relPath \<Rightarrow>
                       (case Template_Clone layoutsAndPartials h of (tmpl, h1) \<Rightarrow>
                          (case ParseFS E fsys tmpl path h1 of
                             (h2, Some e) \<Rightarrow> ((tm, h2), Some e)
                           | (h2, None) \<Rightarrow>
                               ((tm\<lparr>templates := (templates tm)(pageName fsID relPath \<mapsto> tmpl)\<rparr>, h2),
                                None))))
             else ((tm, h), None))))"

text \<open>The loop of \<open>Init\<close> over the sources, in the order \<open>ks\<close>.\<close>

fun initSources :: "('b, 'f, 'd) engine \<Rightarrow> addr \<Rightarrow> string list \<Rightarrow> 'f manager \<times> ('b, 'f) heap \<Rightarrow> ('f manager \<times> ('b, 'f) heap) \<times> gerror option" where
  "initSources E layoutsAndPartials [] st = (st, None)"
| "initSources E layoutsAndPartials (fsID # ks) st =
     (case fileSystemMap (fst st) fsID of
        None \<Rightarrow> initSources E layoutsAndPartials ks st
      | Some fsys \<Rightarrow>
          (if Open fsys ViewsDir \<noteq> None
           then (case WalkDir fsys ViewsDir (processDirectory E fsID fsys layoutsAndPartials) st of
                   (st', Some e) \<Rightarrow> (st', Some e)
                 | (st', None) \<Rightarrow> initSources E layoutsAndPartials ks st')
           else initSources E layoutsAndPartials ks st))"

text \<open>
  \<open>Init\<close>. The two loops over the map of sources may visit it in different orders,
  \<open>ks1\<close> in \<open>loadLayoutsAndPartials\<close> and \<open>ks2\<close> in \<open>Init\<close> itself. The result is the
  manager and the store as \<open>Init\<close> leaves them, and the error returned.
\<close>

definition Init :: "('b, 'f, 'd) engine \<Rightarrow> string list \<Rightarrow> string list \<Rightarrow> 'f manager \<Rightarrow> ('b, 'f) heap \<Rightarrow> ('f manager \<times> ('b, 'f) heap) \<times> gerror option" where
  "Init E ks1 ks2 tm h =
     (let tm0 = tm\<lparr>templates := Map.empty\<rparr>
      in case loadLayoutsAndPartials E ks1 tm0 h of
           (h1, Inl e) \<Rightarrow> ((tm0, h1), Some (Wrapf ''error loading partials. '' e []))
         | (h1, Inr layoutsAndPartials) \<Rightarrow> initSources E layoutsAndPartials ks2 (tm0, h1))"

section \<open>The response sink (http.ResponseWriter) and the renderer\<close>

text \<open>
  The sink is what the program does to it: the calls made on the writer and its header
  map, in order. Whether a \<^verbatim>\<open>Write\<close> fails is decided by the other end; \<open>outcomes\<close>
  lists the results of the writes still to come (a write beyond the list succeeds).
\<close>

datatype call =
    HeaderDel string
  | HeaderSet string string
  | WriteHeader int
  | Write string

record sink =
  calls :: "call list"
  outcomes :: "gerror option list"

definition Header_Del :: "string \<Rightarrow> sink \<Rightarrow> sink" where
  "Header_Del key w = w\<lparr>calls := calls w @ [HeaderDel key]\<rparr>"

definition Header_Set :: "string \<times> string \<Rightarrow> sink \<Rightarrow> sink" where
  "Header_Set kv w = w\<lparr>calls := calls w @ [HeaderSet (fst kv) (snd kv)]\<rparr>"

definition Write_Header :: "int \<Rightarrow> sink \<Rightarrow> sink" where
  "Write_Header code w = w\<lparr>calls := calls w @ [WriteHeader code]\<rparr>"

definition Writer_Write :: "string \<Rightarrow> sink \<Rightarrow> sink \<times> gerror option" where
  "Writer_Write p w =
     (w\<lparr>calls := calls w @ [Write p], outcomes := tl (outcomes w)\<rparr>,
      case outcomes w of [] \<Rightarrow> None | r # rs \<Rightarrow> r)"

definition StatusInternalServerError :: int where
  "StatusInternalServerError = 500"

text \<open>
  \<^verbatim>\<open>http.Error\<close>: drops the content length (from Go 1.23 on; older versions
  begin at the next step), sets the two headers of a plain-text reply, writes the
  status and then the message and a newline. The result of that last write is ignored.
\<close>

definition http_Error :: "sink \<Rightarrow> string \<Rightarrow> int \<Rightarrow> sink" where
  "http_Error w msg code =
     fst (Writer_Write (msg @ [CHR 0x0A])
       (Write_Header code
         (Header_Set (''X-Content-Type-Options'', ''nosniff'')
           (Header_Set (''Content-Type'', ''text/plain; charset=utf-8'')
             (Header_Del ''Content-Length'' w)))))"

text \<open>
  \<^verbatim>\<open>bytes.Buffer.WriteTo\<close>: an empty buffer makes no call; otherwise the whole buffer
  goes out in one \<^verbatim>\<open>Write\<close>, whose error is the result. The writer is taken to
  keep the contract of \<^verbatim>\<open>io.Writer\<close>: it reports an error whenever it takes fewer
  bytes than it was given.
\<close>

definition Buffer_WriteTo :: "string \<Rightarrow> sink \<Rightarrow> sink \<times> gerror option" where
  "Buffer_WriteTo buf w = (if buf = [] then (w, None) else Writer_Write buf w)"

text \<open>
  The type \<^verbatim>\<open>Response\<close> is not among the source files. \<open>render\<close> only reads it through
  its accessors; the record holds what they return: \<^verbatim>\<open>TemplatePath()\<close>,
  \<^verbatim>\<open>TemplateLayout()\<close>, \<^verbatim>\<open>Headers()\<close> in the order \<^verbatim>\<open>range\<close> visits them,
  \<^verbatim>\<open>StatusCode()\<close> and \<^verbatim>\<open>ViewData(r).Data()\<close>.
\<close>

record 'd response =
  templatePath :: string
  templateLayout :: string
  headers :: "(string \<times> string) list"
  statusCode :: int
  viewData :: 'd

definition handleError :: "sink \<Rightarrow> gerror option \<Rightarrow> sink" where
  "handleError w err =
     (case err of
        Some e \<Rightarrow> http_Error w (Error e) StatusInternalServerError
      | None \<Rightarrow> w)"

text \<open>\<^verbatim>\<open>strings.Join(path, "/")\<close> and \<open>viewsPath\<close>.\<close>

fun Join :: "string list \<Rightarrow> string \<Rightarrow> string" where
  "Join [] sep = []"
| "Join [x] sep = x"
| "Join (x # y # ys) sep = x @ sep @ Join (y # ys) sep"

definition viewsPath :: "string list \<Rightarrow> string" where
  "viewsPath path = ViewsDir @ ''/'' @ Join path ''/''"

definition render :: "('b, 'f, 'd) engine \<Rightarrow> 'f manager \<Rightarrow> ('b, 'f) heap \<Rightarrow> sink \<Rightarrow> 'd response \<Rightarrow> sink" where
  "render E tm h w resp =
     (let path = templatePath resp
      in case templates tm path of
           None \<Rightarrow> handleError w (Some (Wrapf [] ErrTempNotFound ('': '' @ templatePath resp)))
         | Some tmpl \<Rightarrow>
             (let layout = ''layout:'' @ templateLayout resp
              in case ExecuteTemplate E (h ! tmpl) layout (viewData resp) of
                   (buf, Some err) \<Rightarrow>
                     (let path' = viewsPath [SystemDir, ''server-error'']
                      in if templatePath resp = path'
                         then http_Error w (Error (Wrapf ''error executing template: '' err []))
                                StatusInternalServerError
                         else handleError w (Some (Wrapf ''error executing template: '' err [])))
                 | (buf, None) \<Rightarrow>
                     (let w1 = fold Header_Set (headers resp) w;
                          w2 = Write_Header (statusCode resp) w1
                      in case Buffer_WriteTo buf w2 of
                           (w3, Some err) \<Rightarrow> http_Error w3 (Error err) StatusInternalServerError
                         | (w3, None) \<Rightarrow> w3)))"

section \<open>Notions used in the statements\<close>

text \<open>The calls \<^verbatim>\<open>http.Error\<close> makes for a message, with status 500.\<close>

definition error_calls :: "string \<Rightarrow> call list" where
  "error_calls msg =
     [HeaderDel ''Content-Length'',
      HeaderSet ''Content-Type'' ''text/plain; charset=utf-8'',
      HeaderSet ''X-Content-Type-Options'' ''nosniff'',
      WriteHeader 500,
      Write (msg @ [CHR 0x0A])]"

text \<open>
  The files below a directory, each by its path relative to the directory. The
  properties of the views and the partials of a source are stated over them.
\<close>

fun files_in :: "fsnode \<Rightarrow> string list"
  and files_in_entries :: "(string \<times> fsnode) list \<Rightarrow> string list" where
  "files_in (File s) = []"
| "files_in (Dir es) = files_in_entries es"
| "files_in (Unreadable msg) = []"
| "files_in_entries [] = []"
| "files_in_entries (e # es) =
     (case snd e of
        File s \<Rightarrow> [fst e]
      | _ \<Rightarrow> map (\<lambda>r. fst e @ ''/'' @ r) (files_in (snd e))) @ files_in_entries es"

text \<open>
  The calls of \<^verbatim>\<open>ParseFS\<close> a build makes when none of them fails, each as the tree
  and the pattern it is called with. \<open>walk_files\<close> are the paths a walk hands to
  \<^verbatim>\<open>ParseFS\<close>: those of the entries that are no directories and have the extension.
  Loading makes, for each source in turn, one call with the pattern of the layouts and
  one call for each such path below the partials (\<open>load_jobs\<close>), all on the common set;
  \<open>Init\<close> then makes one call for each such path below the views of each source
  (\<open>page_jobs\<close>), each on a clone of its own.
\<close>

definition walk_files :: "string \<Rightarrow> event list \<Rightarrow> string list" where
  "walk_files ext evs = map fst (filter (\<lambda>ev. \<not> fst (snd ev) \<and> Ext (fst ev) = ext) evs)"

definition source_trees :: "'f manager \<Rightarrow> string list \<Rightarrow> fsnode list" where
  "source_trees tm ks = List.map_filter (fileSystemMap tm) ks"

definition dir_jobs :: "string \<Rightarrow> string \<Rightarrow> fsnode \<Rightarrow> (fsnode \<times> string) list" where
  "dir_jobs dir ext fsys =
     (case Open fsys dir of
        None \<Rightarrow> []
      | Some n \<Rightarrow> map (Pair fsys) (walk_files ext (walkDir dir n)))"

definition source_jobs :: "'f manager \<Rightarrow> fsnode \<Rightarrow> (fsnode \<times> string) list" where
  "source_jobs tm fsys =
     (fsys, LayoutsDir @ ''/*'' @ extension tm) # dir_jobs PartialsDir (extension tm) fsys"

definition load_jobs :: "'f manager \<Rightarrow> string list \<Rightarrow> (fsnode \<times> string) list" where
  "load_jobs tm ks = concat (map (source_jobs tm) (source_trees tm ks))"

definition page_jobs :: "'f manager \<Rightarrow> string list \<Rightarrow> (fsnode \<times> string) list" where
  "page_jobs tm ks = concat (map (dir_jobs ViewsDir (extension tm)) (source_trees tm ks))"


text \<open>
  The names a file gives to a template set when it is parsed with the functions \<open>fm\<close>:
  the base name of its path and the names of the blocks of its text. The names of a
  pattern are those of the files it matches, and the names loading can give to the
  common set are those of the patterns of its calls.
\<close>

definition file_names :: "('b, 'f, 'd) engine \<Rightarrow> (string \<rightharpoonup> 'f) \<Rightarrow> fsnode \<Rightarrow> string \<Rightarrow> string set" where
  "file_names E fm fsys file =
     insert (Base file)
       (case ReadFile fsys file of
          Inl e \<Rightarrow> {}
        | Inr s \<Rightarrow> (case Parse E fm s of Inl msg \<Rightarrow> {} | Inr rb \<Rightarrow> fst ` set (snd rb)))"

definition pattern_names :: "('b, 'f, 'd) engine \<Rightarrow> (string \<rightharpoonup> 'f) \<Rightarrow> fsnode \<Rightarrow> string \<Rightarrow> string set" where
  "pattern_names E fm fsys pattern =
     (case Glob E fsys pattern of
        Inl e \<Rightarrow> {}
      | Inr ms \<Rightarrow> (\<Union>file \<in> set ms. file_names E fm fsys file))"

definition loaded_names :: "('b, 'f, 'd) engine \<Rightarrow> 'f manager \<Rightarrow> string list \<Rightarrow> string set" where
  "loaded_names E tm ks =
     (\<Union>j \<in> set (load_jobs tm ks). pattern_names E (funcMap tm) (fst j) (snd j))"

text \<open>
  A parse error: a file that can be read and whose text does not parse with the
  functions \<open>fm\<close>. It is in a pattern when the file is among those the pattern matches,
  in the loading when it is in the pattern of one of the calls of the loading, and in
  the pages when it is in the path of one of the views.
\<close>

definition parse_error :: "('b, 'f, 'd) engine \<Rightarrow> (string \<rightharpoonup> 'f) \<Rightarrow> fsnode \<Rightarrow> string \<Rightarrow> bool" where
  "parse_error E fm fsys file =
     (case ReadFile fsys file of
        Inl e \<Rightarrow> False
      | Inr s \<Rightarrow> (case Parse E fm s of Inl msg \<Rightarrow> True | Inr rb \<Rightarrow> False))"

definition parse_error_in :: "('b, 'f, 'd) engine \<Rightarrow> (string \<rightharpoonup> 'f) \<Rightarrow> fsnode \<Rightarrow> string \<Rightarrow> bool" where
  "parse_error_in E fm fsys pattern =
     (case Glob E fsys pattern of
        Inl e \<Rightarrow> False
      | Inr ms \<Rightarrow> (\<exists>file \<in> set ms. parse_error E fm fsys file))"

definition load_parse_error :: "('b, 'f, 'd) engine \<Rightarrow> 'f manager \<Rightarrow> string list \<Rightarrow> bool" where
  "load_parse_error E tm ks =
     (\<exists>j \<in> set (load_jobs tm ks). parse_error_in E (funcMap tm) (fst j) (snd j))"


text \<open>
  What loading layouts and partials may do to the store: only the common set \<open>c\<close>
  changes; it keeps its functions and only gains names.
\<close>

definition common_step :: "addr \<Rightarrow> ('b, 'f) heap \<Rightarrow> ('b, 'f) heap \<Rightarrow> bool" where
  "common_step c h h' =
     (length h' = length h
      \<and> (\<forall>b. b \<noteq> c \<longrightarrow> h' ! b = h ! b)
      \<and> funcs (h' ! c) = funcs (h ! c)
      \<and> dom (defs (h ! c)) \<subseteq> dom (defs (h' ! c)))"

text \<open>
  What a step of a build may do to the manager and the store: the configuration stays,
  no key leaves the catalog, and the store only gets longer, every object already in it
  staying as it is.
\<close>

definition build_step :: "'f manager \<times> ('b, 'f) heap \<Rightarrow> 'f manager \<times> ('b, 'f) heap \<Rightarrow> bool" where
  "build_step st st' =
     (extension (fst st') = extension (fst st)
      \<and> fileSystemMap (fst st') = fileSystemMap (fst st)
      \<and> dom (templates (fst st)) \<subseteq> dom (templates (fst st'))
      \<and> length (snd st) \<le> length (snd st')
      \<and> take (length (snd st)) (snd st') = snd st)"


section \<open>A small engine and small sources for concrete runs\<close>

text \<open>
  Concrete runs of the model need a concrete engine. In this one a tree is the text of
  a template body. A text is either plain (no action: it is its own top-level tree), the
  single block \<^verbatim>\<open>{{define "NAME"}}BODY{{end}}\<close> (an empty top level and one block), or
  the unclosed action \<^verbatim>\<open>{{\<close>, which does not parse. Executing a body writes it out up
  to its first action \<^verbatim>\<open>{{fail}}\<close>, if any, where it fails.
\<close>

definition demo_Parse :: "(string \<rightharpoonup> unit) \<Rightarrow> string \<Rightarrow> string + string \<times> (string \<times> string) list" where
  "demo_Parse fm s =
     (if s = ''{{'' then Inl ''template: unclosed action''
      else if HasPrefix s (''{{define '' @ [CHR 0x22]) \<and> HasSuffix s ''{{end}}''
      then (let r = drop 10 s;
                n = takeWhile (\<lambda>c. c \<noteq> CHR 0x22) r;
                b = drop (length n + 3) r
            in Inr ([], [(n, take (length b - 7) b)]))
      else Inr (s, []))"

definition demo_Exec :: "(string, unit) template \<Rightarrow> string \<Rightarrow> unit \<Rightarrow> string \<times> string option" where
  "demo_Exec t b d =
     (let out = takeWhile (\<lambda>c. c \<noteq> CHR ''{'') b
      in if length out < length b then (out, Some ''template: error calling fail'') else (out, None))"

text \<open>
  This engine refuses every pattern that \<open>Glob\<close> hands to it. Its quoting puts the
  string between the quotes and escapes nothing, as the verbs do on the plain names of
  these runs.
\<close>

definition demo_Glob :: "fsnode \<Rightarrow> string \<Rightarrow> gerror + string list" where
  "demo_Glob fsys pattern = Inl (LibError ''syntax error in pattern'')"

definition demo_engine :: "(string, unit, unit) engine" where
  "demo_engine = \<lparr>Parse = demo_Parse, IsEmptyTree = (\<lambda>b. b = []), Exec = demo_Exec,
     GlobPattern = demo_Glob,
     Quote = (\<lambda>s. [CHR 0x22] @ s @ [CHR 0x22]),
     QuoteSharp = (\<lambda>s. ''`'' @ s @ ''`'')\<rparr>"

text \<open>A bundle, a manager, a response and a sink for concrete runs of the renderer.\<close>

definition demo_bundle :: "(string, unit) template" where
  "demo_bundle = \<lparr>tname = ''_common_'', funcs = Map.empty,
     defs = [''layout:base'' \<mapsto> ''<p>ok</p>'', ''layout:broken'' \<mapsto> ''<p>half{{fail}}'']\<rparr>"

definition demo_manager :: "unit manager" where
  "demo_manager = \<lparr>baseLayout = ''base'', systemLayout = ''base'', extension = ''.html'',
     fileSystemMap = Map.empty, funcMap = Map.empty,
     templates = [''views/home'' \<mapsto> 0, ''views/system/server-error'' \<mapsto> 0]\<rparr>"

definition demo_response :: "string \<Rightarrow> string \<Rightarrow> unit response" where
  "demo_response path layout = \<lparr>templatePath = path, templateLayout = layout,
     headers = [(''X-Frame-Options'', ''DENY'')], statusCode = 200, viewData = ()\<rparr>"

definition fresh_sink :: "gerror option list \<Rightarrow> sink" where
  "fresh_sink rs = \<lparr>calls = [], outcomes = rs\<rparr>"

text \<open>A block \<^verbatim>\<open>{{define "NAME"}}BODY{{end}}\<close>, and sources for concrete builds.\<close>

definition define_block :: "string \<Rightarrow> string \<Rightarrow> string" where
  "define_block name body = ''{{define '' @ [CHR 0x22] @ name @ [CHR 0x22] @ ''}}'' @ body @ ''{{end}}''"

definition demo_source :: "(string \<times> fsnode) list \<Rightarrow> (string \<times> fsnode) list \<Rightarrow> fsnode" where
  "demo_source layouts views = Dir [(''layouts'', Dir layouts), (''views'', Dir views)]"

definition demo_config :: "(string \<rightharpoonup> fsnode) \<Rightarrow> (string \<rightharpoonup> addr) \<Rightarrow> unit manager" where
  "demo_config sources catalog = \<lparr>baseLayout = ''base'', systemLayout = ''base'', extension = ''.html'',
     fileSystemMap = sources, funcMap = Map.empty, templates = catalog\<rparr>"

text \<open>The scenario of the spec: the root source holds one layout and the view \<^verbatim>\<open>home\<close>.\<close>

definition home_source :: fsnode where
  "home_source = demo_source [(''base.html'', File (define_block ''layout:base'' ''<p>base</p>''))]
     [(''home.html'', File ''hello'')]"

definition home_build :: "(unit manager \<times> (string, unit) heap) \<times> gerror option" where
  "home_build = Init demo_engine [''-''] [''-''] (demo_config [''-'' \<mapsto> home_source] Map.empty) []"





text \<open>
  Two sources: the root source has a directory \<^verbatim>\<open>a:views\<close> below its views, the other
  source is named \<^verbatim>\<open>views/a\<close>.
\<close>

definition colon_root :: fsnode where
  "colon_root = demo_source [(''base.html'', File (define_block ''layout:base'' ''<p>base</p>''))]
     [(''a:views'', Dir [(''b.html'', File ''root page'')])]"

definition colon_other :: fsnode where
  "colon_other = demo_source [(''base.html'', File (define_block ''layout:base'' ''<p>base</p>''))]
     [(''b.html'', File ''other page'')]"

definition colon_build :: "(unit manager \<times> (string, unit) heap) \<times> gerror option" where
  "colon_build = Init demo_engine [''-'', ''views/a''] [''-'', ''views/a'']
     (demo_config [''-'' \<mapsto> colon_root, ''views/a'' \<mapsto> colon_other] Map.empty) []"





text \<open>
  A root source with a view whose file name is a pattern: the file \<^verbatim>\<open>views/*.html\<close>
  beside the file \<^verbatim>\<open>views/a.html\<close>.
\<close>

definition star_source :: fsnode where
  "star_source = demo_source [(''base.html'', File (define_block ''layout:base'' ''<p>base</p>''))]
     [(''*.html'', File ''star''), (''a.html'', File ''page a'')]"

definition star_build :: "(unit manager \<times> (string, unit) heap) \<times> gerror option" where
  "star_build = Init demo_engine [''-''] [''-''] (demo_config [''-'' \<mapsto> star_source] Map.empty) []"

section \<open>The renderer\<close>

lemma calls_http_Error:
  "calls (http_Error w msg StatusInternalServerError) = calls w @ error_calls msg"
  by (simp add: http_Error_def Writer_Write_def Write_Header_def Header_Set_def Header_Del_def
      error_calls_def StatusInternalServerError_def)

lemma calls_fold_Header_Set:
  "calls (fold Header_Set hs w) = calls w @ map (\<lambda>kv. HeaderSet (fst kv) (snd kv)) hs"
  by (induction hs arbitrary: w) (simp_all add: Header_Set_def)

lemma outcomes_fold_Header_Set: "outcomes (fold Header_Set hs w) = outcomes w"
  by (induction hs arbitrary: w) (simp_all add: Header_Set_def)

lemma render_missing:
  assumes "templates tm (templatePath resp) = None"
  shows "render E tm h w resp =
           http_Error w (Error (Wrapf [] ErrTempNotFound ('': '' @ templatePath resp)))
             StatusInternalServerError"
  using assms by (simp add: render_def handleError_def)

lemma render_failed:
  assumes "templates tm (templatePath resp) = Some a"
    and "ExecuteTemplate E (h ! a) (''layout:'' @ templateLayout resp) (viewData resp) = (buf, Some err)"
  shows "render E tm h w resp =
           http_Error w (''error executing template: '' @ Error err) StatusInternalServerError"
  using assms by (simp add: render_def handleError_def)

lemma render_executed:
  assumes "templates tm (templatePath resp) = Some a"
    and "ExecuteTemplate E (h ! a) (''layout:'' @ templateLayout resp) (viewData resp) = (buf, None)"
  shows "render E tm h w resp =
           (case Buffer_WriteTo buf (Write_Header (statusCode resp) (fold Header_Set (headers resp) w)) of
              (w3, Some err) \<Rightarrow> http_Error w3 (Error err) StatusInternalServerError
            | (w3, None) \<Rightarrow> w3)"
  using assms by (simp add: render_def)

lemma demo_execute_broken:
  "ExecuteTemplate demo_engine demo_bundle ''layout:broken'' () =
     (''<p>half'', Some (LibError ''template: error calling fail''))"
  by (simp add: ExecuteTemplate_def demo_bundle_def demo_engine_def demo_Exec_def)

lemma demo_execute_base:
  "ExecuteTemplate demo_engine demo_bundle ''layout:base'' () = (''<p>ok</p>'', None)"
  by (simp add: ExecuteTemplate_def demo_bundle_def demo_engine_def demo_Exec_def)

text \<open>
  C6. When the response's page path is not a key of the catalog, the error \<open>render\<close>
  hands to \<open>handleError\<close> wraps \<open>ErrTempNotFound\<close> and its text is
  \<^verbatim>\<open>template not found: \<close> followed by the path; what reaches the sink is exactly the
  reply of \<^verbatim>\<open>http.Error\<close>: status 500 and that text and a newline as the body. No
  template is executed, so nothing else is written.
\<close>

theorem render_not_found:
  assumes "templates tm (templatePath resp) = None"
  shows "Is (Wrapf [] ErrTempNotFound ('': '' @ templatePath resp)) ErrTempNotFound
       \<and> Error (Wrapf [] ErrTempNotFound ('': '' @ templatePath resp)) =
           ''template not found: '' @ templatePath resp
       \<and> render E tm h w resp =
           handleError w (Some (Wrapf [] ErrTempNotFound ('': '' @ templatePath resp)))
       \<and> calls (render E tm h w resp) =
           calls w @ [HeaderDel ''Content-Length'',
                      HeaderSet ''Content-Type'' ''text/plain; charset=utf-8'',
                      HeaderSet ''X-Content-Type-Options'' ''nosniff'',
                      WriteHeader 500,
                      Write (''template not found: '' @ templatePath resp @ [CHR 0x0A])]"
  using assms
  by (simp add: render_missing calls_http_Error error_calls_def handleError_def ErrTempNotFound_def)

theorem render_not_found_witness:
  "templates demo_manager (templatePath (demo_response ''home'' ''base'')) = None
   \<and> calls (render demo_engine demo_manager [demo_bundle] (fresh_sink []) (demo_response ''home'' ''base'')) =
       [HeaderDel ''Content-Length'',
        HeaderSet ''Content-Type'' ''text/plain; charset=utf-8'',
        HeaderSet ''X-Content-Type-Options'' ''nosniff'',
        WriteHeader 500,
        Write (''template not found: home'' @ [CHR 0x0A])]"
proof -
  have a: "templates demo_manager (templatePath (demo_response ''home'' ''base'')) = None"
    by (simp add: demo_manager_def demo_response_def)
  show ?thesis
    using a render_not_found [OF a, of demo_engine "[demo_bundle]" "fresh_sink []",
        THEN conjunct2, THEN conjunct2, THEN conjunct2]
    by (simp add: fresh_sink_def demo_response_def)
qed

text \<open>
  C7. Once the page is found, the calls \<open>render\<close> makes on the sink are decided by the
  outcome of the execution, which wrote into a buffer only. When the execution fails
  the calls are those of \<^verbatim>\<open>http.Error\<close> for the wrapped error: they hold nothing of
  the buffer, of the response's headers or of its status code. When it succeeds the
  calls are the response's headers, then its status code, then the buffer (if it is not
  empty), and after a failed copy the reply of \<^verbatim>\<open>http.Error\<close>.
\<close>

theorem render_commits_after_execution:
  assumes "templates tm (templatePath resp) = Some a"
    and "ExecuteTemplate E (h ! a) (''layout:'' @ templateLayout resp) (viewData resp) = (buf, r)"
  shows "calls (render E tm h w resp) = calls w @
     (case r of
        Some err \<Rightarrow> error_calls (''error executing template: '' @ Error err)
      | None \<Rightarrow>
          map (\<lambda>kv. HeaderSet (fst kv) (snd kv)) (headers resp) @
          WriteHeader (statusCode resp) #
          (if buf = [] then []
           else Write buf #
             (case outcomes w of
                [] \<Rightarrow> []
              | None # rs \<Rightarrow> []
              | Some e # rs \<Rightarrow> error_calls (Error e))))"
proof (cases r)
  case (Some err)
  with assms show ?thesis
    by (simp add: render_failed calls_http_Error)
next
  case None
  with assms have "render E tm h w resp =
      (case Buffer_WriteTo buf (Write_Header (statusCode resp) (fold Header_Set (headers resp) w)) of
         (w3, Some err) \<Rightarrow> http_Error w3 (Error err) StatusInternalServerError
       | (w3, None) \<Rightarrow> w3)"
    by (simp add: render_executed)
  then show ?thesis using None
    by (simp add: Buffer_WriteTo_def Writer_Write_def Write_Header_def calls_http_Error
        calls_fold_Header_Set outcomes_fold_Header_Set split: list.splits option.splits)
qed

theorem render_commits_after_execution_witness:
  "templates demo_manager (templatePath (demo_response ''views/home'' ''broken'')) = Some 0
   \<and> ExecuteTemplate demo_engine ([demo_bundle] ! 0)
        (''layout:'' @ templateLayout (demo_response ''views/home'' ''broken''))
        (viewData (demo_response ''views/home'' ''broken''))
        = (''<p>half'', Some (LibError ''template: error calling fail''))
   \<and> calls (render demo_engine demo_manager [demo_bundle] (fresh_sink [])
        (demo_response ''views/home'' ''broken''))
        = error_calls ''error executing template: template: error calling fail''"
proof -
  have a: "templates demo_manager (templatePath (demo_response ''views/home'' ''broken'')) = Some 0"
    by (simp add: demo_manager_def demo_response_def)
  have b: "ExecuteTemplate demo_engine ([demo_bundle] ! 0)
        (''layout:'' @ templateLayout (demo_response ''views/home'' ''broken''))
        (viewData (demo_response ''views/home'' ''broken''))
        = (''<p>half'', Some (LibError ''template: error calling fail''))"
    by (simp add: demo_response_def demo_execute_broken)
  show ?thesis
    using a b render_commits_after_execution [OF a b, of "fresh_sink []"]
    by (simp add: fresh_sink_def)
qed

text \<open>
  C8. When the page is the system error page, \<^verbatim>\<open>views/system/server-error\<close>, and its
  execution fails, \<open>render\<close> is one call of \<^verbatim>\<open>http.Error\<close> on the sink: status 500
  once, and one write, whose body is the text of the underlying error behind the prefix
  \<^verbatim>\<open>error executing template: \<close>. \<open>render\<close> is not recursive and does not call itself
  or \<open>handleError\<close> on this path.
\<close>

theorem render_system_error_page:
  assumes "templatePath resp = viewsPath [SystemDir, ''server-error'']"
    and "templates tm (templatePath resp) = Some a"
    and "ExecuteTemplate E (h ! a) (''layout:'' @ templateLayout resp) (viewData resp) = (buf, Some err)"
  shows "templatePath resp = ''views/system/server-error''
       \<and> render E tm h w resp =
           http_Error w (''error executing template: '' @ Error err) StatusInternalServerError
       \<and> calls (render E tm h w resp) =
           calls w @ [HeaderDel ''Content-Length'',
                      HeaderSet ''Content-Type'' ''text/plain; charset=utf-8'',
                      HeaderSet ''X-Content-Type-Options'' ''nosniff'',
                      WriteHeader 500,
                      Write (''error executing template: '' @ Error err @ [CHR 0x0A])]"
proof -
  have "templatePath resp = ''views/system/server-error''"
    using assms(1) by (simp add: viewsPath_def ViewsDir_def SystemDir_def)
  moreover have "render E tm h w resp =
      http_Error w (''error executing template: '' @ Error err) StatusInternalServerError"
    using assms(2,3) by (rule render_failed)
  ultimately show ?thesis
    by (simp add: calls_http_Error error_calls_def)
qed

theorem render_system_error_page_witness:
  "templatePath (demo_response ''views/system/server-error'' ''broken'') =
     viewsPath [SystemDir, ''server-error'']
   \<and> templates demo_manager (templatePath (demo_response ''views/system/server-error'' ''broken'')) = Some 0
   \<and> calls (render demo_engine demo_manager [demo_bundle] (fresh_sink [])
        (demo_response ''views/system/server-error'' ''broken'')) =
       [HeaderDel ''Content-Length'',
        HeaderSet ''Content-Type'' ''text/plain; charset=utf-8'',
        HeaderSet ''X-Content-Type-Options'' ''nosniff'',
        WriteHeader 500,
        Write (''error executing template: template: error calling fail'' @ [CHR 0x0A])]"
proof -
  let ?resp = "demo_response ''views/system/server-error'' ''broken''"
  have a: "templatePath ?resp = viewsPath [SystemDir, ''server-error'']"
    by (simp add: demo_response_def viewsPath_def ViewsDir_def SystemDir_def)
  have b: "templates demo_manager (templatePath ?resp) = Some 0"
    by (simp add: demo_manager_def demo_response_def)
  have c: "ExecuteTemplate demo_engine ([demo_bundle] ! 0) (''layout:'' @ templateLayout ?resp)
             (viewData ?resp) = (''<p>half'', Some (LibError ''template: error calling fail''))"
    by (simp add: demo_response_def demo_execute_broken)
  show ?thesis
    using a b render_system_error_page [OF a b c, of "fresh_sink []", THEN conjunct2, THEN conjunct2]
    by (simp add: fresh_sink_def)
qed

text \<open>
  C9, as the spec states it, fails: after a failed copy of the buffer \<open>render\<close> goes on
  to call \<^verbatim>\<open>http.Error\<close> on the same sink. Here the first write fails with a broken
  pipe, and five more calls follow it, the last one another write.
\<close>

theorem render_copy_failure_counterexample:
  "calls (render demo_engine demo_manager [demo_bundle]
            (fresh_sink [Some (LibError ''write: broken pipe'')])
            (demo_response ''views/home'' ''base'')) =
     [HeaderSet ''X-Frame-Options'' ''DENY'',
      WriteHeader 200,
      Write ''<p>ok</p>'',
      HeaderDel ''Content-Length'',
      HeaderSet ''Content-Type'' ''text/plain; charset=utf-8'',
      HeaderSet ''X-Content-Type-Options'' ''nosniff'',
      WriteHeader 500,
      Write (''write: broken pipe'' @ [CHR 0x0A])]"
proof -
  let ?resp = "demo_response ''views/home'' ''base''"
  have a: "templates demo_manager (templatePath ?resp) = Some 0"
    by (simp add: demo_manager_def demo_response_def)
  have c: "ExecuteTemplate demo_engine ([demo_bundle] ! 0) (''layout:'' @ templateLayout ?resp)
             (viewData ?resp) = (''<p>ok</p>'', None)"
    by (simp add: demo_response_def demo_execute_base)
  have "render demo_engine demo_manager [demo_bundle]
          (fresh_sink [Some (LibError ''write: broken pipe'')]) ?resp =
        (case Buffer_WriteTo ''<p>ok</p>''
                (Write_Header (statusCode ?resp)
                  (fold Header_Set (headers ?resp) (fresh_sink [Some (LibError ''write: broken pipe'')]))) of
           (w3, Some err) \<Rightarrow> http_Error w3 (Error err) StatusInternalServerError
         | (w3, None) \<Rightarrow> w3)"
    by (rule render_executed [OF a c])
  then show ?thesis
    by (simp add: Buffer_WriteTo_def Writer_Write_def Write_Header_def
        calls_http_Error error_calls_def fresh_sink_def demo_response_def Header_Set_def)
qed

text \<open>
  C9, amended. When the execution succeeds with a buffer that is not empty and the copy
  of the buffer to the sink fails, \<open>render\<close> (which returns nothing to its caller)
  makes one further attempt on the same sink: \<^verbatim>\<open>http.Error\<close> with the text of the
  write error and status 500, after the headers, the status code and the failed write.
\<close>

theorem render_copy_failure:
  assumes "templates tm (templatePath resp) = Some a"
    and "ExecuteTemplate E (h ! a) (''layout:'' @ templateLayout resp) (viewData resp) = (buf, None)"
    and "buf \<noteq> []"
    and "outcomes w = Some e # rs"
  shows "render E tm h w resp =
           http_Error
             (fst (Writer_Write buf (Write_Header (statusCode resp) (fold Header_Set (headers resp) w))))
             (Error e) StatusInternalServerError
       \<and> calls (render E tm h w resp) =
           calls w @ map (\<lambda>kv. HeaderSet (fst kv) (snd kv)) (headers resp) @
           [WriteHeader (statusCode resp), Write buf] @ error_calls (Error e)"
proof -
  have "render E tm h w resp =
      http_Error
        (fst (Writer_Write buf (Write_Header (statusCode resp) (fold Header_Set (headers resp) w))))
        (Error e) StatusInternalServerError"
    using assms(3,4)
    by (simp add: render_executed [OF assms(1,2)] Buffer_WriteTo_def Writer_Write_def
        Write_Header_def outcomes_fold_Header_Set)
  then show ?thesis
    by (simp add: calls_http_Error Writer_Write_def Write_Header_def calls_fold_Header_Set)
qed

theorem render_copy_failure_witness:
  "templates demo_manager (templatePath (demo_response ''views/home'' ''base'')) = Some 0
   \<and> ''<p>ok</p>'' \<noteq> []
   \<and> outcomes (fresh_sink [Some (LibError ''write: broken pipe'')]) = Some (LibError ''write: broken pipe'') # []
   \<and> calls (render demo_engine demo_manager [demo_bundle]
        (fresh_sink [Some (LibError ''write: broken pipe'')]) (demo_response ''views/home'' ''base'')) =
       [HeaderSet ''X-Frame-Options'' ''DENY'', WriteHeader 200, Write ''<p>ok</p>'']
       @ error_calls ''write: broken pipe''"
proof -
  let ?resp = "demo_response ''views/home'' ''base''"
  let ?w = "fresh_sink [Some (LibError ''write: broken pipe'')]"
  have a: "templates demo_manager (templatePath ?resp) = Some 0"
    by (simp add: demo_manager_def demo_response_def)
  have b: "ExecuteTemplate demo_engine ([demo_bundle] ! 0) (''layout:'' @ templateLayout ?resp)
             (viewData ?resp) = (''<p>ok</p>'', None)"
    by (simp add: demo_response_def demo_execute_base)
  have c: "''<p>ok</p>'' \<noteq> []" by simp
  have d: "outcomes ?w = Some (LibError ''write: broken pipe'') # []"
    by (simp add: fresh_sink_def)
  show ?thesis
    using a c d render_copy_failure [OF a b c d, THEN conjunct2]
    by (simp add: fresh_sink_def demo_response_def)
qed

section \<open>Construction of the manager\<close>

text \<open>
  C10. \<open>NewTemplateManager\<close> never panics: the index \<^verbatim>\<open>opts.Extension[0]\<close> is taken
  after the empty extension has been replaced by \<^verbatim>\<open>.html\<close>, so it is in range. The
  manager it returns has an empty catalog and an extension that starts with a dot, and
  every \<open>render\<close> on it takes the not-found path.
\<close>

theorem NewTemplateManager_total:
  "\<exists>m. NewTemplateManager builtins opts = Inr m
      \<and> templates m = Map.empty
      \<and> extension m \<noteq> [] \<and> hd (extension m) = CHR ''.''
      \<and> (\<forall>E h w resp. render E m h w resp =
            handleError w (Some (Wrapf [] ErrTempNotFound ('': '' @ templatePath resp))))"
  by (cases "Extension opts") (auto simp add: NewTemplateManager_def byte_at_def Let_def render_def)

section \<open>Template sets and the store\<close>

lemma associate_dom: "dom (defs (associate E nb t)) = insert (fst nb) (dom (defs t))"
  by (auto simp: associate_def)

lemma associate_funcs: "funcs (associate E nb t) = funcs t"
  by (simp add: associate_def)

lemma fold_associate_dom:
  "dom (defs (fold (associate E) nbs t)) = dom (defs t) \<union> fst ` set nbs"
  by (induction nbs arbitrary: t) (auto simp: associate_dom)

lemma fold_associate_funcs: "funcs (fold (associate E) nbs t) = funcs t"
  by (induction nbs arbitrary: t) (simp_all add: associate_funcs)

lemma parse_text_Inr:
  assumes "parse_text E name s t = Inr t'"
  obtains root blocks where "Parse E (funcs t) s = Inr (root, blocks)"
    "dom (defs t') = insert name (dom (defs t) \<union> fst ` set blocks)" "funcs t' = funcs t"
proof -
  from assms obtain root blocks where p: "Parse E (funcs t) s = Inr (root, blocks)"
    and t': "t' = fold (associate E) ((name, root) # blocks) t"
    by (auto simp: parse_text_def split: sum.splits prod.splits)
  have "dom (defs t') = dom (defs t) \<union> fst ` set ((name, root) # blocks)"
    unfolding t' by (rule fold_associate_dom)
  then have "dom (defs t') = insert name (dom (defs t) \<union> fst ` set blocks)" by auto
  moreover have "funcs t' = funcs t" unfolding t' by (rule fold_associate_funcs)
  ultimately show ?thesis using p by (rule that [rotated])
qed

lemma parse_text_dom:
  assumes "parse_text E name s t = Inr t'"
  shows "insert name (dom (defs t)) \<subseteq> dom (defs t')"
  using assms by (rule parse_text_Inr) auto

lemma parse_text_funcs:
  assumes "parse_text E name s t = Inr t'"
  shows "funcs t' = funcs t"
  using assms by (rule parse_text_Inr)

lemma parseFiles_length:
  "parseFiles E fsys a files h = (h', r) \<Longrightarrow> length h' = length h"
  by (induction files arbitrary: h) (auto split: sum.splits)

lemma parseFiles_other:
  "parseFiles E fsys a files h = (h', r) \<Longrightarrow> b \<noteq> a \<Longrightarrow> h' ! b = h ! b"
  by (induction files arbitrary: h) (auto split: sum.splits)

text \<open>One step of \<open>parseFiles\<close>, taken apart.\<close>

lemma parseFiles_Cons:
  assumes "parseFiles E fsys a (f # files) h = (h', r)"
  obtains (read) e where "ReadFile fsys f = Inl e" "h' = h" "r = Some e"
  | (parse) s e where "ReadFile fsys f = Inr s" "parse_text E (Base f) s (h ! a) = Inl e"
      "h' = h" "r = Some e"
  | (step) s t where "ReadFile fsys f = Inr s" "parse_text E (Base f) s (h ! a) = Inr t"
      "parseFiles E fsys a files (h[a := t]) = (h', r)"
proof (cases "ReadFile fsys f")
  case (Inl e)
  with assms have "h' = h" "r = Some e" by simp_all
  with Inl show ?thesis by (rule read)
next
  case (Inr s)
  show ?thesis
  proof (cases "parse_text E (Base f) s (h ! a)")
    case (Inl e)
    with assms Inr have "h' = h" "r = Some e" by simp_all
    with Inr Inl show ?thesis by (rule parse)
  next
    case t: (Inr t)
    with assms Inr have "parseFiles E fsys a files (h[a := t]) = (h', r)" by simp
    with Inr t show ?thesis by (rule step)
  qed
qed

lemma parseFiles_funcs:
  "parseFiles E fsys a files h = (h', r) \<Longrightarrow> a < length h \<Longrightarrow> funcs (h' ! a) = funcs (h ! a)"
proof (induction files arbitrary: h)
  case Nil
  then show ?case by simp
next
  case (Cons f files)
  from Cons.prems(1) show ?case
  proof (cases rule: parseFiles_Cons)
    case (step s t)
    from Cons.IH [OF step(3)] Cons.prems(2) have "funcs (h' ! a) = funcs t" by simp
    with parse_text_funcs [OF step(2)] show ?thesis by simp
  qed simp_all
qed

lemma parseFiles_dom:
  "parseFiles E fsys a files h = (h', r) \<Longrightarrow> a < length h \<Longrightarrow>
     dom (defs (h ! a)) \<subseteq> dom (defs (h' ! a))"
proof (induction files arbitrary: h)
  case Nil
  then show ?case by simp
next
  case (Cons f files)
  from Cons.prems(1) show ?case
  proof (cases rule: parseFiles_Cons)
    case (step s t)
    from Cons.IH [OF step(3)] Cons.prems(2) have "dom (defs t) \<subseteq> dom (defs (h' ! a))" by simp
    moreover from parse_text_dom [OF step(2)] have "dom (defs (h ! a)) \<subseteq> dom (defs t)" by blast
    ultimately show ?thesis by blast
  qed simp_all
qed







lemma common_step_refl: "common_step c h h"
  by (simp add: common_step_def)




lemma common_step_dom: "common_step c h h' \<Longrightarrow> n \<in> dom (defs (h ! c)) \<Longrightarrow> n \<in> dom (defs (h' ! c))"
  unfolding common_step_def by blast


text \<open>\<open>ParseFS\<close>, taken apart.\<close>

lemma ParseFS_cases:
  assumes "ParseFS E fsys a pattern h = (h', r)"
  obtains (bad) e where "Glob E fsys pattern = Inl e" "h' = h" "r = Some e"
  | (none) "Glob E fsys pattern = Inr []" "h' = h" "r \<noteq> None"
  | (files) ms where "Glob E fsys pattern = Inr ms" "ms \<noteq> []" "parseFiles E fsys a ms h = (h', r)"
proof (cases "Glob E fsys pattern")
  case (Inl e)
  with assms have "h' = h" "r = Some e" by (simp_all add: ParseFS_def)
  with Inl show ?thesis by (rule bad)
next
  case (Inr ms)
  show ?thesis
  proof (cases "ms = []")
    case True
    with assms Inr have "h' = h" "r \<noteq> None" by (auto simp: ParseFS_def)
    with Inr True show ?thesis by (auto intro: none)
  next
    case False
    with assms Inr have "parseFiles E fsys a ms h = (h', r)" by (simp add: ParseFS_def)
    with Inr False show ?thesis by (rule files)
  qed
qed

lemma ParseFS_common_step:
  assumes "ParseFS E fsys c pattern h = (h', r)" and "c < length h"
  shows "common_step c h h'"
  using assms(1)
proof (cases rule: ParseFS_cases)
  case (files ms)
  from parseFiles_length [OF files(3)] parseFiles_other [OF files(3)]
    parseFiles_funcs [OF files(3) assms(2)] parseFiles_dom [OF files(3) assms(2)]
  show ?thesis unfolding common_step_def by blast
qed (simp_all add: common_step_refl)





section \<open>Walks\<close>

lemma run_walk_invariant:
  assumes "\<And>ev s s' r. P s \<Longrightarrow> fn ev s = (s', r) \<Longrightarrow> P s'"
  shows "P st \<Longrightarrow> run_walk fn evs st = (st', r) \<Longrightarrow> P st'"
proof (induction evs arbitrary: st)
  case Nil
  then show ?case by simp
next
  case (Cons ev evs)
  obtain s1 r1 where step: "fn ev st = (s1, r1)" by (cases "fn ev st")
  from assms [OF Cons.prems(1) step] have "P s1" .
  show ?case
  proof (cases r1)
    case None
    with Cons.prems(2) step have "run_walk fn evs s1 = (st', r)" by simp
    from Cons.IH [OF \<open>P s1\<close> this] show ?thesis .
  next
    case (Some e)
    with Cons.prems(2) step have "st' = s1" by simp
    with \<open>P s1\<close> show ?thesis by simp
  qed
qed

lemma WalkDir_invariant:
  assumes "\<And>ev s s' r. P s \<Longrightarrow> fn ev s = (s', r) \<Longrightarrow> P s'"
    and "P st" and "WalkDir fsys root fn st = (st', r)"
  shows "P st'"
proof (cases "Open fsys root")
  case None
  with assms(3) have "fn (root, False, Some (LibError (''open '' @ root @ '': file does not exist''))) st = (st', r)"
    by (simp add: WalkDir_def)
  from assms(1) [OF assms(2) this] show ?thesis .
next
  case (Some n)
  with assms(3) have "run_walk fn (walkDir root n) st = (st', r)"
    by (simp add: WalkDir_def)
  from run_walk_invariant [of P fn, OF assms(1) assms(2) this] show ?thesis by simp
qed

lemma run_walk_reaches:
  assumes "run_walk fn evs st = (st', None)" and "ev \<in> set evs"
  shows "\<exists>evs1 evs2 s1 s2. evs = evs1 @ ev # evs2 \<and> run_walk fn evs1 st = (s1, None)
           \<and> fn ev s1 = (s2, None) \<and> run_walk fn evs2 s2 = (st', None)"
  using assms
proof (induction evs arbitrary: st)
  case Nil
  then show ?case by simp
next
  case (Cons x evs)
  obtain s1 where step: "fn x st = (s1, None)" and rest: "run_walk fn evs s1 = (st', None)"
    using Cons.prems(1) by (cases "fn x st") (auto split: option.splits)
  show ?case
  proof (cases "ev = x")
    case True
    have "x # evs = [] @ ev # evs" using True by simp
    moreover have "run_walk fn [] st = (st, None)" by simp
    ultimately show ?thesis using step rest True by blast
  next
    case False
    with Cons.prems(2) have "ev \<in> set evs" by simp
    from Cons.IH [OF rest this] obtain evs1 evs2 t1 t2 where
      e: "evs = evs1 @ ev # evs2" and a: "run_walk fn evs1 s1 = (t1, None)"
      and b: "fn ev t1 = (t2, None)" and c: "run_walk fn evs2 t2 = (st', None)"
      by blast
    have "x # evs = (x # evs1) @ ev # evs2" using e by simp
    moreover have "run_walk fn (x # evs1) st = (t1, None)" using step a by simp
    ultimately show ?thesis using b c by blast
  qed
qed

lemma files_in_walk:
  "r \<in> set (files_in n) \<Longrightarrow> (name @ ''/'' @ r, False, None) \<in> set (walkDir name n)"
  "r \<in> set (files_in_entries es) \<Longrightarrow> (name @ ''/'' @ r, False, None) \<in> set (walkEntries name es)"
proof (induction name n and name es arbitrary: r and r rule: walkDir_walkEntries.induct)
  case (5 name e es)
  show ?case
  proof (cases "r \<in> set (files_in_entries es)")
    case True
    from "5.IH"(2) [OF this] show ?thesis by simp
  next
    case False
    show ?thesis
    proof (cases "snd e")
      case (File s)
      with "5.prems" False have "r = fst e" by simp
      with File show ?thesis by simp
    next
      case (Dir ds)
      with "5.prems" False obtain r' where r': "r = fst e @ ''/'' @ r'" "r' \<in> set (files_in (snd e))"
        by auto
      from "5.IH"(1) [OF r'(2)] r'(1) show ?thesis by simp
    next
      case (Unreadable m)
      with "5.prems" False show ?thesis by simp
    qed
  qed
qed simp_all

section \<open>Loading layouts and partials\<close>




















section \<open>Building the catalog\<close>


lemma ParseFS_fresh:
  assumes "ParseFS E fsys (length h) pattern (h @ [x]) = (h2, r)"
  shows "length h2 = Suc (length h) \<and> take (length h) h2 = h"
proof -
  have "length h < length (h @ [x])" by simp
  from ParseFS_common_step [OF assms this]
  have len: "length h2 = Suc (length h)" and oth: "\<forall>b. b \<noteq> length h \<longrightarrow> h2 ! b = (h @ [x]) ! b"
    by (simp_all add: common_step_def)
  have "take (length h) h2 = h"
  proof (rule nth_equalityI)
    show "length (take (length h) h2) = length h" using len by simp
  next
    fix i assume "i < length (take (length h) h2)"
    then have i: "i < length h" by simp
    with oth have "h2 ! i = h ! i" by (simp add: nth_append)
    with i show "take (length h) h2 ! i = h ! i" by simp
  qed
  with len show ?thesis by simp
qed


lemma Rel_empty_Inr: "Rel_empty path = Inr relPath \<Longrightarrow> relPath = path"
  by (auto simp: Rel_empty_def split: if_splits)

lemma processDirectory_cases:
  assumes "processDirectory E fsID fsys c ev (tm, h) = (st', r)"
  obtains (skip) "st' = (tm, h)"
  | (fail) path h2 e where "ev = (path, False, None)" "Ext path = extension tm"
      "ParseFS E fsys (length h) path (h @ [h ! c]) = (h2, Some e)"
      "st' = (tm, h2)" "r = Some e"
  | (add) path h2 where "ev = (path, False, None)" "Ext path = extension tm"
      "ParseFS E fsys (length h) path (h @ [h ! c]) = (h2, None)"
      "st' = (tm\<lparr>templates := (templates tm)(pageName fsID path \<mapsto> length h)\<rparr>, h2)" "r = None"
proof -
  obtain path isDir err where ev: "ev = (path, isDir, err)" by (cases ev)
  show ?thesis
  proof (cases "err = None \<and> \<not> isDir \<and> Ext path = extension tm")
    case False
    with assms ev have "st' = (tm, h)"
      by (auto simp: processDirectory_def split: option.splits if_splits)
    then show ?thesis by (rule skip)
  next
    case True
    then have ev': "ev = (path, False, None)" and ext: "Ext path = extension tm"
      using ev by simp_all
    show ?thesis
    proof (cases "Rel_empty path")
      case (Inl e)
      with assms ev' ext have "st' = (tm, h)" by (simp add: processDirectory_def)
      then show ?thesis by (rule skip)
    next
      case (Inr relPath)
      then have rp: "relPath = path" by (rule Rel_empty_Inr)
      obtain h2 r2 where p: "ParseFS E fsys (length h) path (h @ [h ! c]) = (h2, r2)"
        by (cases "ParseFS E fsys (length h) path (h @ [h ! c])")
      show ?thesis
      proof (cases r2)
        case None
        with assms ev' ext Inr rp p
        have res: "st' = (tm\<lparr>templates := (templates tm)(pageName fsID path \<mapsto> length h)\<rparr>, h2)" "r = None"
          by (simp_all add: processDirectory_def Template_Clone_def)
        from p None have "ParseFS E fsys (length h) path (h @ [h ! c]) = (h2, None)"
          by simp
        then show ?thesis using res by (rule add [OF ev' ext])
      next
        case (Some e)
        with assms ev' ext Inr rp p have res: "st' = (tm, h2)" "r = Some e"
          by (simp_all add: processDirectory_def Template_Clone_def)
        from p Some have "ParseFS E fsys (length h) path (h @ [h ! c]) = (h2, Some e)"
          by simp
        then show ?thesis using res by (rule fail [OF ev' ext])
      qed
    qed
  qed
qed

lemma build_step_refl: "build_step st st"
  by (simp add: build_step_def)

lemma build_step_trans:
  assumes "build_step a b" and "build_step b c"
  shows "build_step a c"
proof -
  have "take (length (snd a)) (snd c) = snd a"
  proof -
    have "take (length (snd a)) (snd c) = take (length (snd a)) (take (length (snd b)) (snd c))"
      using assms(1) by (simp add: build_step_def min_def)
    also have "\<dots> = take (length (snd a)) (snd b)" using assms(2) by (simp add: build_step_def)
    also have "\<dots> = snd a" using assms(1) by (simp add: build_step_def)
    finally show ?thesis .
  qed
  moreover have "dom (templates (fst a)) \<subseteq> dom (templates (fst c))"
    using assms unfolding build_step_def by (meson subset_trans)
  moreover have "extension (fst c) = extension (fst a)" "fileSystemMap (fst c) = fileSystemMap (fst a)"
    "length (snd a) \<le> length (snd c)"
    using assms unfolding build_step_def by simp_all
  ultimately show ?thesis unfolding build_step_def by blast
qed

lemma processDirectory_build_step:
  assumes "processDirectory E fsID fsys c ev st = (st', r)"
  shows "build_step st st'"
proof -
  obtain tm h where st: "st = (tm, h)" by (cases st)
  from assms [unfolded st] show ?thesis
  proof (cases rule: processDirectory_cases)
    case skip
    with st show ?thesis by (simp add: build_step_refl)
  next
    case (fail path h2 e)
    from ParseFS_fresh [OF fail(3)] fail(4) st show ?thesis
      by (simp add: build_step_def)
  next
    case (add path h2)
    from ParseFS_fresh [OF add(3)] add(4) st show ?thesis
      by (auto simp: build_step_def)
  qed
qed

lemma processDirectory_adds:
  assumes "processDirectory E fsID fsys c (p, False, None) (tm, h) = (st', None)"
    and "Ext p = extension tm"
  shows "pageName fsID p \<in> dom (templates (fst st'))"
proof -
  from assms(2) have "Rel_empty p = Inr p \<or> (\<exists>e. Rel_empty p = Inl e)"
    by (simp add: Rel_empty_def)
  with assms show ?thesis
    by (auto simp: processDirectory_def Template_Clone_def split: sum.splits prod.splits option.splits)
qed









lemma build_step_only:
  "initSources E c ks st = (st', r) \<Longrightarrow> build_step st st'"
proof (induction ks arbitrary: st)
  case Nil
  then show ?case by (simp add: build_step_refl)
next
  case (Cons fsID ks)
  show ?case
  proof (cases "fileSystemMap (fst st) fsID")
    case None
    with Cons show ?thesis by simp
  next
    case (Some fsys)
    show ?thesis
    proof (cases "Open fsys ViewsDir \<noteq> None")
      case False
      with Cons Some show ?thesis by simp
    next
      case True
      obtain s1 r1 where w: "WalkDir fsys ViewsDir (processDirectory E fsID fsys c) st = (s1, r1)"
        by (cases "WalkDir fsys ViewsDir (processDirectory E fsID fsys c) st")
      have step: "\<And>ev s s' r. build_step st s \<Longrightarrow> processDirectory E fsID fsys c ev s = (s', r)
          \<Longrightarrow> build_step st s'"
        by (blast intro: build_step_trans processDirectory_build_step)
      from WalkDir_invariant [where P = "build_step st", OF step build_step_refl w]
      have i1: "build_step st s1" .
      show ?thesis
      proof (cases r1)
        case (Some e)
        with Cons.prems \<open>fileSystemMap (fst st) fsID = Some fsys\<close> True w have "st' = s1" by simp
        with i1 show ?thesis by simp
      next
        case None
        with Cons.prems \<open>fileSystemMap (fst st) fsID = Some fsys\<close> True w
        have "initSources E c ks s1 = (st', r)" by simp
        from Cons.IH [OF this] i1 show ?thesis by (blast intro: build_step_trans)
      qed
    qed
  qed
qed

lemma walk_views_adds:
  assumes w: "run_walk (processDirectory E fsID fsys c) evs st = (st', None)"
    and ev: "(p, False, None) \<in> set evs" and ext: "Ext p = extension (fst st)"
  shows "pageName fsID p \<in> dom (templates (fst st'))"
proof -
  let ?fn = "processDirectory E fsID fsys c"
  from run_walk_reaches [OF w ev] obtain evs1 evs2 s1 s2 where
    a: "run_walk ?fn evs1 st = (s1, None)" and b: "?fn (p, False, None) s1 = (s2, None)"
    and c: "run_walk ?fn evs2 s2 = (st', None)"
    by blast
  have step: "\<And>x ev s s' r. build_step x s \<Longrightarrow> ?fn ev s = (s', r) \<Longrightarrow> build_step x s'"
    by (blast intro: build_step_trans processDirectory_build_step)
  from run_walk_invariant [where P = "build_step st", OF step build_step_refl a]
  have "build_step st s1" .
  then have ext1: "Ext p = extension (fst s1)" using ext by (simp add: build_step_def)
  obtain tm1 h1 where s1: "s1 = (tm1, h1)" by (cases s1)
  from processDirectory_adds [OF b [unfolded s1]] ext1 s1
  have "pageName fsID p \<in> dom (templates (fst s2))" by simp
  moreover from run_walk_invariant [where P = "build_step s2", OF step build_step_refl c]
  have "dom (templates (fst s2)) \<subseteq> dom (templates (fst st'))" by (simp add: build_step_def)
  ultimately show ?thesis by blast
qed

lemma initSources_adds:
  "initSources E c ks st = (st', None) \<Longrightarrow> fsID \<in> set ks \<Longrightarrow>
   fileSystemMap (fst st) fsID = Some fsys \<Longrightarrow> Open fsys ViewsDir = Some n \<Longrightarrow>
   (p, False, None) \<in> set (walkDir ViewsDir n) \<Longrightarrow> Ext p = extension (fst st) \<Longrightarrow>
   pageName fsID p \<in> dom (templates (fst st'))"
proof (induction ks arbitrary: st)
  case Nil
  then show ?case by simp
next
  case (Cons k ks)
  have "\<exists>s1. build_step st s1 \<and> initSources E c ks s1 = (st', None)
        \<and> (k = fsID \<longrightarrow> pageName fsID p \<in> dom (templates (fst s1)))"
  proof (cases "fileSystemMap (fst st) k")
    case None
    with Cons.prems(3) have "k \<noteq> fsID" by auto
    moreover from Cons.prems(1) None have "initSources E c ks st = (st', None)" by simp
    ultimately show ?thesis using build_step_refl by blast
  next
    case (Some fsk)
    show ?thesis
    proof (cases "Open fsk ViewsDir")
      case None
      with Cons.prems(3,4) Some have "k \<noteq> fsID" by auto
      moreover from Cons.prems(1) Some None have "initSources E c ks st = (st', None)" by simp
      ultimately show ?thesis using build_step_refl by blast
    next
      case o: (Some nk)
      obtain s1 r1 where w: "WalkDir fsk ViewsDir (processDirectory E k fsk c) st = (s1, r1)"
        by (cases "WalkDir fsk ViewsDir (processDirectory E k fsk c) st")
      from Cons.prems(1) Some o w have r1: "r1 = None" by (cases r1) auto
      from Cons.prems(1) Some o w r1 have rest: "initSources E c ks s1 = (st', None)" by simp
      from w r1 o have rw: "run_walk (processDirectory E k fsk c) (walkDir ViewsDir nk) st = (s1, None)"
        by (simp add: WalkDir_def)
      have step: "\<And>ev s s' r. build_step st s \<Longrightarrow> processDirectory E k fsk c ev s = (s', r)
          \<Longrightarrow> build_step st s'"
        by (blast intro: build_step_trans processDirectory_build_step)
      from run_walk_invariant [where P = "build_step st", OF step build_step_refl rw]
      have bs: "build_step st s1" .
      have "k = fsID \<longrightarrow> pageName fsID p \<in> dom (templates (fst s1))"
      proof
        assume kf: "k = fsID"
        with Some Cons.prems(3) have "fsk = fsys" by simp
        with o Cons.prems(4) have "nk = n" by simp
        from walk_views_adds [OF rw] Cons.prems(5,6) \<open>nk = n\<close> kf
        show "pageName fsID p \<in> dom (templates (fst s1))" by simp
      qed
      with bs rest show ?thesis by blast
    qed
  qed
  then obtain s1 where bs: "build_step st s1" and rest: "initSources E c ks s1 = (st', None)"
    and here: "k = fsID \<longrightarrow> pageName fsID p \<in> dom (templates (fst s1))"
    by blast
  show ?case
  proof (cases "k = fsID")
    case True
    with here have "pageName fsID p \<in> dom (templates (fst s1))" by simp
    moreover from build_step_only [OF rest]
    have "dom (templates (fst s1)) \<subseteq> dom (templates (fst st'))" by (simp add: build_step_def)
    ultimately show ?thesis by blast
  next
    case False
    with Cons.prems(2) have "fsID \<in> set ks" by simp
    moreover from bs Cons.prems(3,6) have "fileSystemMap (fst s1) fsID = Some fsys"
      "Ext p = extension (fst s1)" by (simp_all add: build_step_def)
    ultimately show ?thesis using Cons.IH [OF rest] Cons.prems(4,5) by blast
  qed
qed

lemma Init_cases:
  assumes "Init E ks1 ks2 tm h = (st', r)"
  obtains (load) h1 e where
      "loadLayoutsAndPartials E ks1 (tm\<lparr>templates := Map.empty\<rparr>) h = (h1, Inl e)"
      "st' = (tm\<lparr>templates := Map.empty\<rparr>, h1)" "r = Some (Wrapf ''error loading partials. '' e [])"
  | (views) h1 c where
      "loadLayoutsAndPartials E ks1 (tm\<lparr>templates := Map.empty\<rparr>) h = (h1, Inr c)"
      "initSources E c ks2 (tm\<lparr>templates := Map.empty\<rparr>, h1) = (st', r)"
proof -
  obtain h1 x where l: "loadLayoutsAndPartials E ks1 (tm\<lparr>templates := Map.empty\<rparr>) h = (h1, x)"
    by (cases "loadLayoutsAndPartials E ks1 (tm\<lparr>templates := Map.empty\<rparr>) h")
  show ?thesis
  proof (cases x)
    case (Inl e)
    from assms have "st' = (tm\<lparr>templates := Map.empty\<rparr>, h1)"
      "r = Some (Wrapf ''error loading partials. '' e [])"
      unfolding Init_def Let_def l Inl by simp_all
    then show ?thesis by (rule load [OF l [unfolded Inl]])
  next
    case (Inr c)
    from assms have "initSources E c ks2 (tm\<lparr>templates := Map.empty\<rparr>, h1) = (st', r)"
      unfolding Init_def Let_def l Inr by simp
    then show ?thesis by (rule views [OF l [unfolded Inr]])
  qed
qed


text \<open>
  C1, amended. After a successful \<open>Init\<close>, for every source and every file below the
  source's views directory whose extension is the configured one, the catalog has an
  entry under the file's path relative to the root of the source, so with the leading
  \<^verbatim>\<open>views/\<close>, the extension stripped, and the name of the source and a colon in front
  for a source other than \<^verbatim>\<open>""\<close> and \<^verbatim>\<open>"-"\<close>.
\<close>

theorem Init_catalog_keys:
  assumes "Init E ks1 ks2 tm h = ((tm', h'), None)"
    and "fsID \<in> set ks2" and "fileSystemMap tm fsID = Some fsys"
    and "Open fsys ViewsDir = Some views" and "rel \<in> set (files_in views)"
    and "Ext (ViewsDir @ ''/'' @ rel) = extension tm"
  shows "pageName fsID (ViewsDir @ ''/'' @ rel) =
           (if fsID \<noteq> [] \<and> fsID \<noteq> ''-'' then fsID @ '':'' else []) @
           TrimSuffix (''views/'' @ rel) (extension tm)
       \<and> templates tm' (pageName fsID (ViewsDir @ ''/'' @ rel)) \<noteq> None"
proof -
  let ?tm0 = "tm\<lparr>templates := Map.empty\<rparr>"
  from assms(1) obtain h1 c where
    i: "initSources E c ks2 (?tm0, h1) = ((tm', h'), None)"
    by (cases rule: Init_cases) simp_all
  have w: "(ViewsDir @ ''/'' @ rel, False, None) \<in> set (walkDir ViewsDir views)"
    using assms(5) by (rule files_in_walk)
  have src: "fileSystemMap (fst (?tm0, h1)) fsID = Some fsys" using assms(3) by simp
  have ext: "Ext (ViewsDir @ ''/'' @ rel) = extension (fst (?tm0, h1))" using assms(6) by simp
  from initSources_adds [OF i assms(2) src assms(4) w ext]
  have "pageName fsID (ViewsDir @ ''/'' @ rel) \<in> dom (templates tm')" by simp
  then have k: "templates tm' (pageName fsID (ViewsDir @ ''/'' @ rel)) \<noteq> None" by blast
  have "pageName fsID (ViewsDir @ ''/'' @ rel) =
           (if fsID \<noteq> [] \<and> fsID \<noteq> ''-'' then fsID @ '':'' else []) @
           TrimSuffix (''views/'' @ rel) (extension tm)"
    unfolding pageName_def Let_def assms(6) by (simp add: ViewsDir_def)
  with k show ?thesis by (rule conjI [rotated])
qed

lemma home_build_ok: "snd home_build = None"
  by code_simp

text \<open>
  C1, as the spec states it, fails: for the root source \<^verbatim>\<open>"-"\<close> with
  \<^verbatim>\<open>views/home.html\<close> the build succeeds and the key of the page is \<^verbatim>\<open>views/home\<close>;
  \<^verbatim>\<open>home\<close> is not a key.
\<close>

theorem Init_catalog_keys_counterexample:
  "snd home_build = None
   \<and> templates (fst (fst home_build)) ''home'' = None
   \<and> templates (fst (fst home_build)) ''views/home'' = Some 1"
  by code_simp

theorem Init_catalog_keys_witness:
  "''-'' \<in> set [''-'']
   \<and> fileSystemMap (demo_config [''-'' \<mapsto> home_source] Map.empty) ''-'' = Some home_source
   \<and> Open home_source ViewsDir = Some (Dir [(''home.html'', File ''hello'')])
   \<and> ''home.html'' \<in> set (files_in (Dir [(''home.html'', File ''hello'')]))
   \<and> Ext (ViewsDir @ ''/'' @ ''home.html'') = extension (demo_config [''-'' \<mapsto> home_source] Map.empty)
   \<and> snd home_build = None
   \<and> pageName ''-'' (ViewsDir @ ''/'' @ ''home.html'') = ''views/home''
   \<and> templates (fst (fst home_build)) (pageName ''-'' (ViewsDir @ ''/'' @ ''home.html'')) \<noteq> None"
proof -
  let ?tm = "demo_config [''-'' \<mapsto> home_source] Map.empty"
  have a: "Init demo_engine [''-''] [''-''] ?tm [] = ((fst (fst home_build), snd (fst home_build)), None)"
    using home_build_ok unfolding home_build_def by (simp only: prod_eq_iff fst_conv snd_conv)
  have b: "''-'' \<in> set [''-'']" by simp
  have c: "fileSystemMap ?tm ''-'' = Some home_source" by (simp add: demo_config_def)
  have d: "Open home_source ViewsDir = Some (Dir [(''home.html'', File ''hello'')])"
    by code_simp
  have e: "''home.html'' \<in> set (files_in (Dir [(''home.html'', File ''hello'')]))" by simp
  have f: "Ext (ViewsDir @ ''/'' @ ''home.html'') = extension ?tm" by code_simp
  have g: "pageName ''-'' (ViewsDir @ ''/'' @ ''home.html'') = ''views/home''" by code_simp
  have k: "templates (fst (fst home_build)) (pageName ''-'' (ViewsDir @ ''/'' @ ''home.html'')) \<noteq> None"
    by (rule Init_catalog_keys [OF a b c d e f, THEN conjunct2])
  show ?thesis by (intro conjI b c d e f g k home_build_ok)
qed

section \<open>Errors of a build, and the names of the common set\<close>





text \<open>The calls of a build do not depend on the catalog the manager holds.\<close>

lemma source_jobs_templates [simp]: "source_jobs (tm\<lparr>templates := x\<rparr>) = source_jobs tm"
  by (rule ext) (simp add: source_jobs_def)

lemma jobs_templates [simp]:
  "load_jobs (tm\<lparr>templates := x\<rparr>) ks = load_jobs tm ks"
  "page_jobs (tm\<lparr>templates := x\<rparr>) ks = page_jobs tm ks"
  "loaded_names E (tm\<lparr>templates := x\<rparr>) ks = loaded_names E tm ks"
  "load_parse_error E (tm\<lparr>templates := x\<rparr>) ks = load_parse_error E tm ks"
  by (simp_all add: load_jobs_def page_jobs_def loaded_names_def load_parse_error_def
      source_trees_def)















section \<open>The catalog after a build\<close>









lemma set_TrimSuffix: "set (TrimSuffix s suf) \<subseteq> set s"
  by (auto simp: TrimSuffix_def dest: in_set_takeD)

text \<open>
  C4, amended. For a source whose name is neither \<^verbatim>\<open>""\<close> nor \<^verbatim>\<open>"-"\<close> the page name
  is the name of the source, a colon, and the path without its extension; and it
  differs from every page name of a root source whose path has no colon in it.
\<close>

theorem pageName_prefixed:
  assumes "fsID \<noteq> []" and "fsID \<noteq> ''-''"
  shows "pageName fsID path = fsID @ '':'' @ TrimSuffix path (Ext path)
       \<and> (\<forall>root q. (root = [] \<or> root = ''-'') \<longrightarrow> CHR '':'' \<notin> set q \<longrightarrow>
             pageName fsID path \<noteq> pageName root q)"
proof -
  have p: "pageName fsID path = fsID @ '':'' @ TrimSuffix path (Ext path)"
    using assms by (simp add: pageName_def)
  have "pageName fsID path \<noteq> pageName root q"
    if "root = [] \<or> root = ''-''" and "CHR '':'' \<notin> set q" for root q
  proof
    assume eq: "pageName fsID path = pageName root q"
    from that(1) have "pageName root q = TrimSuffix q (Ext q)"
      by (auto simp: pageName_def)
    with set_TrimSuffix [of q "Ext q"] that(2) have "CHR '':'' \<notin> set (pageName root q)"
      by auto
    moreover have "CHR '':'' \<in> set (pageName fsID path)" unfolding p by simp
    ultimately show False using eq by simp
  qed
  with p show ?thesis by blast
qed

theorem pageName_prefixed_witness:
  "''blog'' \<noteq> [] \<and> ''blog'' \<noteq> ''-''
   \<and> pageName ''blog'' ''views/index.html'' = ''blog:views/index''
   \<and> CHR '':'' \<notin> set ''views/index.html''
   \<and> pageName ''blog'' ''views/index.html'' \<noteq> pageName ''-'' ''views/index.html''"
proof -
  have a: "''blog'' \<noteq> []" and b: "''blog'' \<noteq> ''-''" by simp_all
  have c: "CHR '':'' \<notin> set ''views/index.html''" by simp
  have d: "pageName ''blog'' ''views/index.html'' = ''blog:views/index''" by code_simp
  note t = pageName_prefixed [OF a b, of "''views/index.html''"]
  from t c have "pageName ''blog'' ''views/index.html'' \<noteq> pageName ''-'' ''views/index.html''"
    by blast
  with a b c d show ?thesis by blast
qed

text \<open>
  C4, as the spec states it, fails: the file \<^verbatim>\<open>views/b.html\<close> of the source
  \<^verbatim>\<open>views/a\<close> and the file \<^verbatim>\<open>views/a:views/b.html\<close> of the root source get the same
  page name, and the catalog keeps only one of the two pages.
\<close>

theorem pageName_prefixed_counterexample:
  "pageName ''views/a'' ''views/b.html'' = ''views/a:views/b''
   \<and> pageName ''-'' ''views/a:views/b.html'' = ''views/a:views/b''
   \<and> snd colon_build = None
   \<and> templates (fst (fst colon_build)) ''views/a:views/b'' = Some 2
   \<and> defs (snd (fst colon_build) ! 1) ''b.html'' = Some ''root page''
   \<and> defs (snd (fst colon_build) ! 2) ''b.html'' = Some ''other page''"
  by code_simp





text \<open>
  A view whose file name is a pattern: \<^verbatim>\<open>ParseFS\<close> globs the path \<^verbatim>\<open>views/*.html\<close>, so
  the bundle of the key \<^verbatim>\<open>views/*\<close> holds both views, and the bundle of the key
  \<^verbatim>\<open>views/a\<close> holds its own only.
\<close>

lemma star_build_bundles:
  "snd star_build = None
   \<and> hasMeta ''views/*.html''
   \<and> Glob demo_engine star_source ''views/*.html'' = Inr [''views/*.html'', ''views/a.html'']
   \<and> templates (fst (fst star_build)) ''views/*'' = Some 1
   \<and> defs (snd (fst star_build) ! 1) ''*.html'' = Some ''star''
   \<and> defs (snd (fst star_build) ! 1) ''a.html'' = Some ''page a''
   \<and> templates (fst (fst star_build)) ''views/a'' = Some 2
   \<and> defs (snd (fst star_build) ! 2) ''*.html'' = None
   \<and> defs (snd (fst star_build) ! 2) ''a.html'' = Some ''page a''"
  by code_simp

end
